theory Spec2Isabelle
  imports Main "HOL-Library.Multiset" "HOL-Library.List_Lexorder" "HOL-Library.Char_ord"
begin

section \<open>ncdownloader.py: a shallow embedding\<close>

text \<open>
  The program downloads a Nextcloud share over WebDAV. The embedding follows
  \<^verbatim>\<open>src/ncdownloader.py\<close> function by function and keeps its names.

  Python's \<^verbatim>\<open>str\<close> is modelled as \<^typ>\<open>string\<close>, a list of bytes standing for the UTF-8
  encoding of the text; byte order on such lists is code-point order. Python's unbounded
  \<^verbatim>\<open>int\<close> is \<^typ>\<open>int\<close>. A Python exception is a value of type \<open>error\<close>, and a function
  that can raise returns \<open>error + 'a\<close> with \<open>Inl\<close> for the exception.

  What is outside the repository is a parameter or a plain model of the library call:
  the HTTP session (one answer per request), the XML parser of \<^verbatim>\<open>xml.dom.minidom\<close>
  (the DOM it builds is the input of the embedding), \<^verbatim>\<open>fnmatch.fnmatch\<close>, and the
  file system (a snapshot of the answers of \<^verbatim>\<open>os.path\<close>).
\<close>

subsection \<open>Exceptions\<close>

datatype error =
    RuntimeError string
  | IndexError
  | AttributeError
  | ValueError string
  | KeyError string
  | ExpatError
  | OSError string
  | FileNotFoundError

subsection \<open>String operations of Python used by the program\<close>

definition startswith :: "string \<Rightarrow> string \<Rightarrow> bool" where
  "startswith s p = (take (length p) s = p)"

definition endswith :: "string \<Rightarrow> string \<Rightarrow> bool" where
  "endswith s p = (length p \<le> length s \<and> drop (length s - length p) s = p)"

text \<open>\<^verbatim>\<open>str(n)\<close> of an integer, as the f-strings print a status code.\<close>

definition digit_char :: "nat \<Rightarrow> char" where
  "digit_char d = ''0123456789'' ! d"

function str_nat :: "nat \<Rightarrow> string" where
  "str_nat n = (if n < 10 then [digit_char n] else str_nat (n div 10) @ [digit_char (n mod 10)])"
  by pat_completeness auto
termination
  by (relation "measure id") auto

definition str_int :: "int \<Rightarrow> string" where
  "str_int i = (if i < 0 then CHR ''-'' # str_nat (nat (- i)) else str_nat (nat i))"

text \<open>
  \<^verbatim>\<open>int(s)\<close> of a string, base 10, on ASCII text: blanks around the number are skipped,
  one sign is allowed, and digits may be grouped by single underscores. Anything else
  raises \<^verbatim>\<open>ValueError\<close>. Digits and blanks outside ASCII are not modelled, nor is the
  limit recent versions of Python put on the number of digits.
\<close>

definition is_space :: "char \<Rightarrow> bool" where
  "is_space c = (of_char c \<in> {9, 10, 11, 12, 13, 32 :: nat})"

definition is_digit :: "char \<Rightarrow> bool" where
  "is_digit c = (48 \<le> (of_char c :: nat) \<and> (of_char c :: nat) \<le> 57)"

definition digit_val :: "char \<Rightarrow> nat" where
  "digit_val c = of_char c - 48"

definition strip :: "string \<Rightarrow> string" where
  "strip s = rev (dropWhile is_space (rev (dropWhile is_space s)))"

fun py_digits :: "string \<Rightarrow> nat \<Rightarrow> nat option" where
  "py_digits [] acc = Some acc"
| "py_digits (c # cs) acc =
     (if is_digit c then py_digits cs (10 * acc + digit_val c)
      else if c = CHR ''_'' then
        (case cs of
           [] \<Rightarrow> None
         | d # ds \<Rightarrow> if is_digit d then py_digits ds (10 * acc + digit_val d) else None)
      else None)"

definition py_nat :: "string \<Rightarrow> nat option" where
  "py_nat s = (case s of
     [] \<Rightarrow> None
   | c # cs \<Rightarrow> if is_digit c then py_digits cs (digit_val c) else None)"

definition py_int :: "string \<Rightarrow> error + int" where
  "py_int s =
     (let t = strip s;
          neg = (t \<noteq> [] \<and> hd t = CHR ''-'');
          u = (if t \<noteq> [] \<and> (hd t = CHR ''-'' \<or> hd t = CHR ''+'') then tl t else t)
      in case py_nat u of
           None \<Rightarrow> Inl (ValueError s)
         | Some n \<Rightarrow> Inr (if neg then - int n else int n))"

subsection \<open>The DOM of \<^verbatim>\<open>xml.dom.minidom\<close>\<close>

text \<open>
  An element has a tag name and child nodes. Every other node the parser builds (text,
  CDATA section, comment, processing instruction) has a \<^verbatim>\<open>data\<close> attribute and no
  children. The document node is represented as an element holding the top-level nodes.
\<close>

datatype node = Element string "node list" | Data string

fun is_element :: "node \<Rightarrow> bool" where
  "is_element (Element t cs) = True"
| "is_element (Data d) = False"

fun tagName :: "node \<Rightarrow> string" where
  "tagName (Element t cs) = t"
| "tagName (Data d) = []"

fun childNodes :: "node \<Rightarrow> node list" where
  "childNodes (Element t cs) = cs"
| "childNodes (Data d) = []"

text \<open>
  \<^verbatim>\<open>getElementsByTagName\<close>: the descendant elements of that name in document order
  (a node before its descendants), the node itself excluded.
\<close>

fun getElementsByTagName :: "string \<Rightarrow> node \<Rightarrow> node list" where
  "getElementsByTagName name (Element t cs) =
     concat (map (\<lambda>c. (if is_element c \<and> (name = ''*'' \<or> tagName c = name) then [c] else [])
                        @ getElementsByTagName name c) cs)"
| "getElementsByTagName name (Data d) = []"

definition firstChild :: "node \<Rightarrow> node option" where
  "firstChild n = (case childNodes n of [] \<Rightarrow> None | c # cs \<Rightarrow> Some c)"

text \<open>Reading \<^verbatim>\<open>.data\<close> of a node: an element has no such attribute.\<close>

fun data :: "node \<Rightarrow> error + string" where
  "data (Data d) = Inr d"
| "data (Element t cs) = Inl AttributeError"

subsection \<open>Records of the program\<close>

text \<open>
  An item is the dictionary \<^verbatim>\<open>parse_propfind_response\<close> builds, with the two keys
  \<^verbatim>\<open>get_file_lists\<close> and \<^verbatim>\<open>check_files\<close> add later. A key that may be missing is an
  option.
\<close>

record item =
  path :: string
  lastmodified :: "string option"
  contentlength :: "int option"
  contenttype :: "string option"
  dest :: "string option"
  filesize :: "int option"

text \<open>A response of the HTTP library: what the program reads of it.\<close>

record response =
  status_code :: int
  resp_text :: string
  headers :: "string \<rightharpoonup> string"
  iter_content :: "nat \<Rightarrow> string list"

text \<open>
  The session answers a request (method, URL, body) and a GET (URL). The remote side is a
  fixed snapshot: the same request gets the same answer throughout a run.
\<close>

record session =
  request :: "string \<Rightarrow> string \<Rightarrow> string \<Rightarrow> response"
  get :: "string \<Rightarrow> response"

subsection \<open>Constants\<close>

definition PROPFIND_REQUEST :: string where
  "PROPFIND_REQUEST =
     ''<?xml version=\"1.0\" encoding=\"UTF-8\"?>\<newline>'' @
     ''<d:propfind xmlns:d=\"DAV:\">\<newline>'' @
     ''    <d:prop xmlns:oc=\"http://owncloud.org/ns\">\<newline>'' @
     ''        <d:getlastmodified/>\<newline>'' @
     ''        <d:getcontentlength/>\<newline>'' @
     ''        <d:getcontenttype/>\<newline>'' @
     ''    </d:prop>\<newline>'' @
     ''</d:propfind>''"

definition CODE_SUCCESS :: int where
  "CODE_SUCCESS = 207"

definition LEN_PATH_PREF :: nat where
  "LEN_PATH_PREF = length ''/public.php/webdav''"

subsection \<open>\<^verbatim>\<open>parse_propfind_response\<close>\<close>

text \<open>
  One property of an entry, lines 95 to 97:
  \<^verbatim>\<open>node = response.getElementsByTagName(f'd:get{field}')[0].firstChild\<close>, and the key is
  set when \<^verbatim>\<open>node\<close> is not \<^verbatim>\<open>None\<close> (a minidom node is always true).
\<close>

definition get_field :: "node \<Rightarrow> string \<Rightarrow> error + string option" where
  "get_field response field =
     (case getElementsByTagName (''d:get'' @ field) response of
        [] \<Rightarrow> Inl IndexError
      | e # es \<Rightarrow>
          (case firstChild e of
             None \<Rightarrow> Inr None
           | Some n \<Rightarrow> (case data n of Inl err \<Rightarrow> Inl err | Inr d \<Rightarrow> Inr (Some d))))"

text \<open>The href of an entry, line 92: \<^verbatim>\<open>...('d:href')[0].firstChild.data[LEN_PATH_PREF:]\<close>.\<close>

definition get_href :: "node \<Rightarrow> error + string" where
  "get_href response =
     (case getElementsByTagName ''d:href'' response of
        [] \<Rightarrow> Inl IndexError
      | e # es \<Rightarrow>
          (case firstChild e of
             None \<Rightarrow> Inl AttributeError
           | Some n \<Rightarrow> (case data n of Inl err \<Rightarrow> Inl err | Inr d \<Rightarrow> Inr (drop LEN_PATH_PREF d))))"

text \<open>
  The body of the loop, lines 91 to 100: the href, the three fields in the order
  lastmodified, contentlength, contenttype, and only then the conversion of
  contentlength by \<^verbatim>\<open>int\<close> (lines 98 and 99, \<open>convert_length\<close>).
\<close>

definition convert_length :: "string option \<Rightarrow> error + int option" where
  "convert_length cl =
     (case cl of
        None \<Rightarrow> Inr None
      | Some t \<Rightarrow> (case py_int t of Inl e \<Rightarrow> Inl e | Inr n \<Rightarrow> Inr (Some n)))"

definition parse_entry :: "node \<Rightarrow> error + item" where
  "parse_entry response =
     (case get_href response of
        Inl e \<Rightarrow> Inl e
      | Inr p \<Rightarrow>
     (case get_field response ''lastmodified'' of
        Inl e \<Rightarrow> Inl e
      | Inr lm \<Rightarrow>
     (case get_field response ''contentlength'' of
        Inl e \<Rightarrow> Inl e
      | Inr cl \<Rightarrow>
     (case get_field response ''contenttype'' of
        Inl e \<Rightarrow> Inl e
      | Inr ct \<Rightarrow>
     (case convert_length cl of
        Inl e \<Rightarrow> Inl e
      | Inr n \<Rightarrow>
          Inr \<lparr>path = p, lastmodified = lm, contentlength = n, contenttype = ct,
               dest = None, filesize = None\<rparr>)))))"

fun parse_entries :: "node list \<Rightarrow> error + item list" where
  "parse_entries [] = Inr []"
| "parse_entries (r # rs) =
     (case parse_entry r of
        Inl e \<Rightarrow> Inl e
      | Inr x \<Rightarrow> (case parse_entries rs of Inl e \<Rightarrow> Inl e | Inr xs \<Rightarrow> Inr (x # xs)))"

text \<open>
  \<open>parseString\<close> stands for \<^verbatim>\<open>minidom.parseString(text.encode('ascii', 'xmlcharrefreplace'))\<close>:
  the document, or \<open>None\<close> when the parser raises \<^verbatim>\<open>ExpatError\<close>.
\<close>

definition parse_propfind_response :: "(string \<Rightarrow> node option) \<Rightarrow> string \<Rightarrow> error + item list" where
  "parse_propfind_response parseString txt =
     (case parseString txt of
        None \<Rightarrow> Inl ExpatError
      | Some doc \<Rightarrow> parse_entries (getElementsByTagName ''d:response'' doc))"

subsection \<open>\<^verbatim>\<open>list_dir\<close> and \<^verbatim>\<open>walk_dir\<close>\<close>

definition webdav_url :: "string \<Rightarrow> string \<Rightarrow> string" where
  "webdav_url host p = host @ ''/public.php/webdav/'' @ p"

definition unexpected_response :: "string \<Rightarrow> response \<Rightarrow> string" where
  "unexpected_response url r =
     ''Unexpected response from '' @ url @ ''\<newline> Status code: ''
       @ str_int (status_code r) @ ''\<newline> Message:\<newline>'' @ resp_text r"

definition list_dir :: "(string \<Rightarrow> node option) \<Rightarrow> session \<Rightarrow> string \<Rightarrow> string \<Rightarrow> error + item list" where
  "list_dir parseString s host p =
     (let url = webdav_url host p;
          r = request s ''PROPFIND'' url PROPFIND_REQUEST
      in if status_code r \<noteq> CODE_SUCCESS then Inl (RuntimeError (unexpected_response url r))
         else (case parse_propfind_response parseString (resp_text r) of
                 Inl e \<Rightarrow> Inl e
               | Inr xs \<Rightarrow> Inr (drop 1 xs)))"

text \<open>
  \<^verbatim>\<open>walk_dir\<close> recurses as deep as the server's answers lead it, so the model takes
  fuel: the number of nested calls allowed. \<open>None\<close> means the fuel ran out; \<open>Some\<close>
  holds what the call returns or raises. \<open>walk_loop\<close> is the \<^verbatim>\<open>for\<close> loop of lines 116 to
  120 over the rest of the listing, with \<^verbatim>\<open>files\<close> as collected so far.
\<close>

fun walk_dir :: "nat \<Rightarrow> (string \<Rightarrow> node option) \<Rightarrow> session \<Rightarrow> string \<Rightarrow> string
                  \<Rightarrow> (error + item list) option"
  and walk_loop :: "nat \<Rightarrow> (string \<Rightarrow> node option) \<Rightarrow> session \<Rightarrow> string \<Rightarrow> item list
                  \<Rightarrow> item list \<Rightarrow> (error + item list) option" where
  "walk_dir 0 parseString s host p = None"
| "walk_dir (Suc n) parseString s host p =
     (case list_dir parseString s host p of
        Inl e \<Rightarrow> Some (Inl e)
      | Inr xs \<Rightarrow> walk_loop n parseString s host xs [])"
| "walk_loop n parseString s host [] files = Some (Inr files)"
| "walk_loop n parseString s host (x # xs) files =
     (if endswith (path x) ''/'' then
        (case walk_dir n parseString s host (path x) of
           None \<Rightarrow> None
         | Some (Inl e) \<Rightarrow> Some (Inl e)
         | Some (Inr sub) \<Rightarrow> walk_loop n parseString s host xs (files @ sub))
      else walk_loop n parseString s host xs (files @ [x]))"

subsection \<open>The local file system\<close>

text \<open>
  A snapshot of what \<^verbatim>\<open>os.path\<close> and \<^verbatim>\<open>os.listdir\<close> answer for a path string: the
  directories with their entries, and the regular files with their sizes in bytes.
\<close>

type_synonym disk = "string \<rightharpoonup> nat"

record fs =
  dirs :: "string \<rightharpoonup> string list"
  files :: disk

definition isdir :: "fs \<Rightarrow> string \<Rightarrow> bool" where
  "isdir f p = (dirs f p \<noteq> None)"

definition listdir :: "fs \<Rightarrow> string \<Rightarrow> string list" where
  "listdir f p = (case dirs f p of None \<Rightarrow> [] | Some es \<Rightarrow> es)"

definition isfile :: "fs \<Rightarrow> string \<Rightarrow> bool" where
  "isfile f p = (files f p \<noteq> None)"

definition getsize :: "fs \<Rightarrow> string \<Rightarrow> error + int" where
  "getsize f p = (case files f p of None \<Rightarrow> Inl (OSError p) | Some n \<Rightarrow> Inr (int n))"

text \<open>\<^verbatim>\<open>os.path.isdir(path) and os.listdir(path)\<close>, read as a truth value.\<close>

definition check_dir_not_empty :: "fs \<Rightarrow> string \<Rightarrow> bool" where
  "check_dir_not_empty f p = (isdir f p \<and> listdir f p \<noteq> [])"

subsection \<open>\<^verbatim>\<open>glob_filter\<close> and \<^verbatim>\<open>check_files\<close>\<close>

text \<open>\<open>fnmatch\<close> stands for \<^verbatim>\<open>fnmatch.fnmatch\<close> (name, then pattern).\<close>

fun glob_filter :: "(string \<Rightarrow> string \<Rightarrow> bool) \<Rightarrow> string \<Rightarrow> string list \<Rightarrow> bool" where
  "glob_filter fnmatch p [] = False"
| "glob_filter fnmatch p (g # globs) = (if fnmatch p g then True else glob_filter fnmatch p globs)"

text \<open>
  The loop of \<^verbatim>\<open>check_files\<close>, lines 139 to 147, with the three lists as collected so
  far. Reading a key the dictionary lacks raises \<^verbatim>\<open>KeyError\<close>.
\<close>

fun check_loop :: "fs \<Rightarrow> item list \<Rightarrow> item list \<times> item list \<times> item list
                    \<Rightarrow> error + (item list \<times> item list \<times> item list)" where
  "check_loop f [] (new, existing, mismatched) = Inr (new, existing, mismatched)"
| "check_loop f (x # xs) (new, existing, mismatched) =
     (case dest x of
        None \<Rightarrow> Inl (KeyError ''dest'')
      | Some d \<Rightarrow>
          if isfile f d then
            (case getsize f d of
               Inl e \<Rightarrow> Inl e
             | Inr sz \<Rightarrow>
                 (let x' = x\<lparr>filesize := Some sz\<rparr> in
                  case contentlength x' of
                    None \<Rightarrow> Inl (KeyError ''contentlength'')
                  | Some c \<Rightarrow>
                      if sz = c then check_loop f xs (new, existing @ [x'], mismatched)
                      else check_loop f xs (new, existing, mismatched @ [x'])))
          else check_loop f xs (new @ [x], existing, mismatched))"

text \<open>The result is in the order of line 148: new, mismatched, existing.\<close>

definition check_files :: "fs \<Rightarrow> item list \<Rightarrow> error + (item list \<times> item list \<times> item list)" where
  "check_files f xs =
     (case check_loop f xs ([], [], []) of
        Inl e \<Rightarrow> Inl e
      | Inr (new, existing, mismatched) \<Rightarrow> Inr (new, mismatched, existing))"

subsection \<open>\<^verbatim>\<open>get_file_lists\<close>\<close>

text \<open>The namespace \<^verbatim>\<open>parse_args\<close> returns. \<^verbatim>\<open>glob\<close> is \<open>None\<close> when no \<^verbatim>\<open>-g\<close> was given.\<close>

record args =
  url :: string
  yes :: bool
  password :: string
  prompt :: bool
  "output" :: string
  resume :: bool
  glob :: "string list option"

text \<open>
  \<^verbatim>\<open>urllib.parse.unquote\<close>: a percent sign followed by two hexadecimal digits becomes the
  byte they name; any other percent sign stays. The bytes are then read as UTF-8, which
  keeps every well-formed sequence as it is; the replacement of ill-formed sequences by
  U+FFFD is not modelled.
\<close>

definition hexval :: "char \<Rightarrow> nat option" where
  "hexval c =
     (let n = (of_char c :: nat) in
      if 48 \<le> n \<and> n \<le> 57 then Some (n - 48)
      else if 65 \<le> n \<and> n \<le> 70 then Some (n - 55)
      else if 97 \<le> n \<and> n \<le> 102 then Some (n - 87)
      else None)"

fun unquote :: "string \<Rightarrow> string" where
  "unquote [] = []"
| "unquote [c] = [c]"
| "unquote [c, h] = c # unquote [h]"
| "unquote (c # h1 # h2 # cs) =
     (if c = CHR ''%'' then
        (case (hexval h1, hexval h2) of
           (Some a, Some b) \<Rightarrow> char_of (16 * a + b) # unquote cs
         | _ \<Rightarrow> c # unquote (h1 # h2 # cs))
      else c # unquote (h1 # h2 # cs))"

text \<open>\<^verbatim>\<open>os.path.join\<close> of two paths, as \<^verbatim>\<open>posixpath\<close> has it.\<close>

definition join :: "string \<Rightarrow> string \<Rightarrow> string" where
  "join a b =
     (if startswith b ''/'' then b
      else if a = [] \<or> endswith a ''/'' then a @ b
      else a @ ''/'' @ b)"

text \<open>
  Lines 154 and 155: every item gets its destination,
  \<^verbatim>\<open>urllib.parse.unquote(os.path.join(args.output, x['path'][1:]))\<close>.
\<close>

definition destination :: "args \<Rightarrow> item \<Rightarrow> string" where
  "destination a x = unquote (join (output a) (drop 1 (path x)))"

definition set_dest :: "args \<Rightarrow> item \<Rightarrow> item" where
  "set_dest a x = x\<lparr>dest := Some (destination a x)\<rparr>"

text \<open>
  \<open>file_lists\<close> is \<^verbatim>\<open>get_file_lists\<close> from line 152 on, applied to the list \<^verbatim>\<open>walk_dir\<close>
  returned: the stable sort by path, the destinations, the filter when \<^verbatim>\<open>args.glob\<close> is
  a non-empty list, and the classification. The printing of line 158 is left out.
  In \<open>candidates\<close> the destination is read from items that got one in the line before,
  and the patterns only when \<open>glob_given\<close> holds.
\<close>

definition glob_given :: "args \<Rightarrow> bool" where
  "glob_given a = (case glob a of None \<Rightarrow> False | Some gs \<Rightarrow> gs \<noteq> [])"

definition candidates :: "(string \<Rightarrow> string \<Rightarrow> bool) \<Rightarrow> args \<Rightarrow> item list \<Rightarrow> item list" where
  "candidates fnmatch a walked =
     (let xs = map (set_dest a) (sort_key path walked)
      in if glob_given a
         then filter (\<lambda>x. glob_filter fnmatch (the (dest x)) (the (glob a))) xs
         else xs)"

definition file_lists :: "(string \<Rightarrow> string \<Rightarrow> bool) \<Rightarrow> args \<Rightarrow> fs \<Rightarrow> item list
                            \<Rightarrow> error + (item list \<times> item list \<times> item list)" where
  "file_lists fnmatch a f walked =
     (let xs = candidates fnmatch a walked
      in if check_dir_not_empty f (output a) then check_files f xs
         else Inr (xs, [], []))"

definition get_file_lists :: "nat \<Rightarrow> (string \<Rightarrow> node option) \<Rightarrow> (string \<Rightarrow> string \<Rightarrow> bool) \<Rightarrow> fs
                                \<Rightarrow> session \<Rightarrow> string \<Rightarrow> string \<Rightarrow> args
                                \<Rightarrow> (error + (item list \<times> item list \<times> item list)) option" where
  "get_file_lists fuel parseString fnmatch f s host_url p a =
     (case walk_dir fuel parseString s host_url p of
        None \<Rightarrow> None
      | Some (Inl e) \<Rightarrow> Some (Inl e)
      | Some (Inr walked) \<Rightarrow> Some (file_lists fnmatch a f walked))"

subsection \<open>\<^verbatim>\<open>download_file\<close>\<close>

text \<open>
  The state is the regular files on disk. The two calls into the operating system,
  \<^verbatim>\<open>os.makedirs(os.path.dirname(path_out), exist_ok=True)\<close> of line 171 and
  \<^verbatim>\<open>open(path_out, "wb")\<close> of line 178, can raise, and the exception ends the download
  there. What they answer for a path is a parameter, as the answers of the server are:
  \<open>None\<close> when the call returns, the exception otherwise. One failure the path alone
  decides and is part of the model: \<^verbatim>\<open>os.makedirs('')\<close> raises \<^verbatim>\<open>FileNotFoundError\<close>, and
  that is what line 171 asks for when \<^verbatim>\<open>path_out\<close> has no directory part. A call to
  \<^verbatim>\<open>os.makedirs\<close> that returns changes directories only; \<^verbatim>\<open>open\<close> that returns leaves an
  empty file at \<^verbatim>\<open>path_out\<close>. Exceptions raised inside the HTTP library or while
  writing are outside the model. The progress bar is its counter \<^verbatim>\<open>n\<close>; its description
  (\<^verbatim>\<open>path_fmt\<close>) has no effect on the result.
\<close>

record os_calls =
  makedirs :: "string \<Rightarrow> error option"
  open_wb :: "string \<Rightarrow> error option"

text \<open>\<^verbatim>\<open>os.path.dirname\<close>, as \<^verbatim>\<open>posixpath\<close> has it.\<close>

definition dirname :: "string \<Rightarrow> string" where
  "dirname p =
     (let head = rev (dropWhile (\<lambda>c. c \<noteq> CHR ''/'') (rev p))
      in if head \<noteq> [] \<and> \<not> list_all (\<lambda>c. c = CHR ''/'') head
         then rev (dropWhile (\<lambda>c. c = CHR ''/'') (rev head))
         else head)"

definition os_makedirs :: "os_calls \<Rightarrow> string \<Rightarrow> error option" where
  "os_makedirs os name = (if name = [] then Some FileNotFoundError else makedirs os name)"

text \<open>Line 174: \<^verbatim>\<open>int(response.headers.get("content-length", 0))\<close>.\<close>

definition total_size_of :: "response \<Rightarrow> error + int" where
  "total_size_of r = (case headers r ''content-length'' of None \<Rightarrow> Inr 0 | Some v \<Rightarrow> py_int v)"

text \<open>
  The loop of lines 179 to 181 over the chunks: the counter of the progress bar and the
  size of the open file.
\<close>

fun write_chunks :: "string list \<Rightarrow> string \<Rightarrow> int \<times> disk \<Rightarrow> int \<times> disk" where
  "write_chunks [] path_out (n, d) = (n, d)"
| "write_chunks (c # cs) path_out (n, d) =
     write_chunks cs path_out
       (n + int (length c),
        d(path_out \<mapsto> (case d path_out of None \<Rightarrow> 0 | Some k \<Rightarrow> k) + length c))"

definition download_file :: "os_calls \<Rightarrow> session \<Rightarrow> string \<Rightarrow> string \<Rightarrow> string \<Rightarrow> disk
                               \<Rightarrow> error option \<times> disk" where
  "download_file os s host path_share path_out d =
     (let url = webdav_url host path_share
      in case os_makedirs os (dirname path_out) of
           Some e \<Rightarrow> (Some e, d)
         | None \<Rightarrow>
             (let r = get s url
              in case total_size_of r of
                   Inl e \<Rightarrow> (Some e, d)
                 | Inr total_size \<Rightarrow>
                     (case open_wb os path_out of
                        Some e \<Rightarrow> (Some e, d)
                      | None \<Rightarrow>
                          (let block_size = 1024;
                               (n, d') = write_chunks (iter_content r block_size) path_out
                                           (0, d(path_out \<mapsto> 0))
                           in if total_size \<noteq> 0 \<and> n \<noteq> total_size
                              then (Some (RuntimeError (''Could not download file: '' @ url)), d')
                              else (None, d')))))"

text \<open>The answer to the listing request of \<^verbatim>\<open>list_dir\<close> for a path (lines 105 and 106).\<close>

definition propfind :: "session \<Rightarrow> string \<Rightarrow> string \<Rightarrow> response" where
  "propfind s host p = request s ''PROPFIND'' (webdav_url host p) PROPFIND_REQUEST"

section \<open>Reading an entry of a listing\<close>

text \<open>
  What the specification says of an entry is stated with these readings of the DOM: the first
  element of a name below the entry, whether it is empty or starts with character data,
  and that data. \<open>fields_present\<close> holds when the entry has an href with text and an
  element for each of the three properties; \<open>well_formed_entry\<close> adds that the text of
  the content length, if there is one, is accepted by \<^verbatim>\<open>int\<close>.
\<close>

definition first_element :: "string \<Rightarrow> node \<Rightarrow> node option" where
  "first_element name r = (case getElementsByTagName name r of [] \<Rightarrow> None | e # es \<Rightarrow> Some e)"

definition is_empty_or_text :: "node \<Rightarrow> bool" where
  "is_empty_or_text e = (case firstChild e of None \<Rightarrow> True | Some c \<Rightarrow> \<not> is_element c)"

definition text_of :: "node \<Rightarrow> string option" where
  "text_of e = (case firstChild e of Some (Data d) \<Rightarrow> Some d | _ \<Rightarrow> None)"

definition href_ok :: "node \<Rightarrow> bool" where
  "href_ok r = (case first_element ''d:href'' r of None \<Rightarrow> False | Some e \<Rightarrow> text_of e \<noteq> None)"

definition field_ok :: "node \<Rightarrow> string \<Rightarrow> bool" where
  "field_ok r f = (case first_element (''d:get'' @ f) r of None \<Rightarrow> False | Some e \<Rightarrow> is_empty_or_text e)"

definition field_text :: "node \<Rightarrow> string \<Rightarrow> string option" where
  "field_text r f = (case first_element (''d:get'' @ f) r of None \<Rightarrow> None | Some e \<Rightarrow> text_of e)"

definition href_text :: "node \<Rightarrow> string" where
  "href_text r = (case first_element ''d:href'' r of None \<Rightarrow> [] | Some e \<Rightarrow> (case text_of e of None \<Rightarrow> [] | Some d \<Rightarrow> d))"

definition fields_present :: "node \<Rightarrow> bool" where
  "fields_present r = (href_ok r \<and> field_ok r ''lastmodified'' \<and> field_ok r ''contentlength''
      \<and> field_ok r ''contenttype'')"

definition entry_item :: "node \<Rightarrow> int option \<Rightarrow> item" where
  "entry_item r n = \<lparr>path = drop LEN_PATH_PREF (href_text r), lastmodified = field_text r ''lastmodified'',
      contentlength = n, contenttype = field_text r ''contenttype'', dest = None, filesize = None\<rparr>"





section \<open>A remote tree\<close>

text \<open>
  What the specification says of the walker is stated with a tree of entries: a file, or a
  directory with the trees of its entries. A tree is served by a listing function when
  the path of every directory in it ends in the separator and is answered with the
  entries of that directory, in order, and the path of no file does.
\<close>

datatype rtree = RFile item | RDir item "rtree list"

fun root_item :: "rtree \<Rightarrow> item" where
  "root_item (RFile x) = x"
| "root_item (RDir d cs) = d"

fun leaves :: "rtree \<Rightarrow> item list" where
  "leaves (RFile x) = [x]"
| "leaves (RDir d cs) = concat (map leaves cs)"

fun depth :: "rtree \<Rightarrow> nat" where
  "depth (RFile x) = 0"
| "depth (RDir d cs) = Suc (foldr max (map depth cs) 0)"

fun tree_ok :: "(string \<Rightarrow> error + item list) \<Rightarrow> rtree \<Rightarrow> bool" where
  "tree_ok ld (RFile x) = (\<not> endswith (path x) ''/'')"
| "tree_ok ld (RDir d cs) =
     (endswith (path d) ''/'' \<and> ld (path d) = Inr (map root_item cs) \<and> list_all (tree_ok ld) cs)"

definition max_depth :: "rtree list \<Rightarrow> nat" where
  "max_depth ts = foldr max (map depth ts) 0"

section \<open>The classes of the reconciler\<close>

text \<open>
  What the specification says of the classification is stated with these readings of an item
  against a snapshot: the size of the regular file at its destination, if there is one;
  its class; the item with that size recorded as \<^verbatim>\<open>filesize\<close>; and whether
  \<^verbatim>\<open>check_files\<close> can compare it, which needs a content length once the file exists.
\<close>

datatype file_class = New | Mismatched | Existing

definition local_size :: "fs \<Rightarrow> item \<Rightarrow> nat option" where
  "local_size f x = (case dest x of None \<Rightarrow> None | Some d \<Rightarrow> files f d)"

definition classify :: "fs \<Rightarrow> item \<Rightarrow> file_class" where
  "classify f x =
     (case local_size f x of
        None \<Rightarrow> New
      | Some n \<Rightarrow> if contentlength x = Some (int n) then Existing else Mismatched)"

definition with_size :: "fs \<Rightarrow> item \<Rightarrow> item" where
  "with_size f x = x\<lparr>filesize := map_option int (local_size f x)\<rparr>"

definition checkable :: "fs \<Rightarrow> item \<Rightarrow> bool" where
  "checkable f x = (local_size f x = None \<or> contentlength x \<noteq> None)"

definition of_class :: "fs \<Rightarrow> file_class \<Rightarrow> item list \<Rightarrow> item list" where
  "of_class f c xs = filter (\<lambda>x. classify f x = c) xs"

section \<open>The bytes of a transfer\<close>

text \<open>
  The number of bytes the body of a response delivers in chunks of 1024, and the error
  of line 184 for a share path.
\<close>

definition bytes_written :: "response \<Rightarrow> nat" where
  "bytes_written r = sum_list (map length (iter_content r 1024))"

definition could_not_download :: "string \<Rightarrow> string \<Rightarrow> error" where
  "could_not_download host path_share =
     RuntimeError (''Could not download file: '' @ webdav_url host path_share)"

section \<open>The destination as the specification words it\<close>

text \<open>
  The specification computes the destination in this order: percent-decode the remote
  path, strip its leading separator, join the rest under the output root.
  \<open>claimed_destination\<close> follows those words, to be compared with \<open>destination\<close>, which
  follows line 155.
\<close>

definition strip_leading_sep :: "string \<Rightarrow> string" where
  "strip_leading_sep p = (if startswith p ''/'' then drop 1 p else p)"

definition claimed_destination :: "string \<Rightarrow> string \<Rightarrow> string" where
  "claimed_destination root p = join root (strip_leading_sep (unquote p))"

section \<open>Example inputs\<close>

text \<open>A server that answers every request with status 404.\<close>

definition response_404 :: response where
  "response_404 = \<lparr>status_code = 404, resp_text = ''Not Found'', headers = Map.empty,
                     iter_content = (\<lambda>n. [])\<rparr>"


definition dir_item :: "string \<Rightarrow> item" where
  "dir_item p = \<lparr>path = p, lastmodified = None, contentlength = None, contenttype = None,
                  dest = None, filesize = None\<rparr>"

text \<open>Entries of a listing, a document of two entries, and a server that sends it.\<close>

definition entry_of :: "string \<Rightarrow> node list \<Rightarrow> node list \<Rightarrow> node list \<Rightarrow> node" where
  "entry_of href lm cl ct =
     Element ''d:response''
       [Element ''d:href'' [Data href],
        Element ''d:propstat''
          [Element ''d:prop''
             [Element ''d:getlastmodified'' lm,
              Element ''d:getcontentlength'' cl,
              Element ''d:getcontenttype'' ct],
           Element ''d:status'' [Data ''HTTP/1.1 200 OK'']]]"

definition entry_root :: node where
  "entry_root = entry_of ''/public.php/webdav/'' [Data ''Mon, 01 Jan 2024 10:00:00 GMT''] [] []"

definition entry_a :: node where
  "entry_a = entry_of ''/public.php/webdav/a.txt'' [Data ''Mon, 01 Jan 2024 10:00:00 GMT'']
               [Data ''10''] [Data ''text/plain'']"

definition entry_negative :: node where
  "entry_negative = entry_of ''/public.php/webdav/a.txt'' [Data ''Mon, 01 Jan 2024 10:00:00 GMT'']
               [Data ''-5''] [Data ''text/plain'']"

definition entry_no_type :: node where
  "entry_no_type =
     Element ''d:response''
       [Element ''d:href'' [Data ''/public.php/webdav/a.txt''],
        Element ''d:propstat''
          [Element ''d:prop''
             [Element ''d:getlastmodified'' [Data ''Mon, 01 Jan 2024 10:00:00 GMT''],
              Element ''d:getcontentlength'' [Data ''10'']]]]"





text \<open>A share with a file and a directory that holds one more file, and its tree.\<close>

definition file_item :: "string \<Rightarrow> int \<Rightarrow> item" where
  "file_item p n = \<lparr>path = p, lastmodified = Some ''Mon, 01 Jan 2024 10:00:00 GMT'',
                     contentlength = Some n, contenttype = Some ''text/plain'', dest = None,
                     filesize = None\<rparr>"

definition entry_sub :: node where
  "entry_sub = entry_of ''/public.php/webdav/sub/'' [Data ''Mon, 01 Jan 2024 10:00:00 GMT''] [] []"

definition entry_b :: node where
  "entry_b = entry_of ''/public.php/webdav/sub/b.txt'' [Data ''Mon, 01 Jan 2024 10:00:00 GMT'']
               [Data ''20''] [Data ''text/plain'']"

definition doc_share :: node where
  "doc_share = Element ''#document'' [Element ''d:multistatus'' [entry_root, entry_a, entry_sub]]"

definition doc_sub :: node where
  "doc_sub = Element ''#document'' [Element ''d:multistatus'' [entry_sub, entry_b]]"

definition parse_share :: "string \<Rightarrow> node option" where
  "parse_share t =
     (if t = ''listing of /'' then Some doc_share
      else if t = ''listing of /sub/'' then Some doc_sub
      else None)"

definition listing_response :: "string \<Rightarrow> response" where
  "listing_response t = \<lparr>status_code = 207, resp_text = t, headers = Map.empty,
                          iter_content = (\<lambda>n. [])\<rparr>"

definition file_response :: "string \<Rightarrow> string list \<Rightarrow> response" where
  "file_response len chunks = \<lparr>status_code = 200, resp_text = [],
                                headers = [''content-length'' \<mapsto> len],
                                iter_content = (\<lambda>n. chunks)\<rparr>"

definition session_share :: session where
  "session_share =
     \<lparr>request = (\<lambda>m u b.
          if u = ''https://h/public.php/webdav//'' then listing_response ''listing of /''
          else if u = ''https://h/public.php/webdav//sub/'' then listing_response ''listing of /sub/''
          else response_404),
      get = (\<lambda>u.
          if u = ''https://h/public.php/webdav//a.txt'' then file_response ''10'' [''0123456789'']
          else response_404)\<rparr>"

definition tree_share :: "rtree list" where
  "tree_share =
     [RFile (file_item ''/a.txt'' 10),
      RDir (dir_item ''/sub/''\<lparr>lastmodified := Some ''Mon, 01 Jan 2024 10:00:00 GMT''\<rparr>)
        [RFile (file_item ''/sub/b.txt'' 20)]]"

text \<open>
  A matcher for patterns of literal characters, \<^verbatim>\<open>*\<close> and \<^verbatim>\<open>?\<close> (the fragment of
  \<^verbatim>\<open>fnmatch\<close> without bracket expressions), arguments, three snapshots (no output
  directory; one that lists no entry, whatever is answered for a regular file; one
  partly filled), and a walked list.
\<close>

fun fnmatch_simple :: "string \<Rightarrow> string \<Rightarrow> bool" where
  "fnmatch_simple [] [] = True"
| "fnmatch_simple (c # cs) [] = False"
| "fnmatch_simple [] (p # ps) = (p = CHR ''*'' \<and> fnmatch_simple [] ps)"
| "fnmatch_simple (c # cs) (p # ps) =
     (if p = CHR ''*'' then fnmatch_simple (c # cs) ps \<or> fnmatch_simple cs (p # ps)
      else (p = CHR ''?'' \<or> p = c) \<and> fnmatch_simple cs ps)"

definition args_out :: args where
  "args_out = \<lparr>url = ''https://h/s/TOKEN'', yes = True, password = [], prompt = False,
                output = ''out'', resume = True, glob = None\<rparr>"

definition args_txt :: args where
  "args_txt = args_out\<lparr>glob := Some [''*.txt'']\<rparr>"

definition fs_empty :: fs where
  "fs_empty = \<lparr>dirs = Map.empty, files = Map.empty\<rparr>"

definition fs_hollow :: fs where
  "fs_hollow = \<lparr>dirs = [''out'' \<mapsto> []], files = [''out/a.txt'' \<mapsto> 10]\<rparr>"

definition fs_partial :: fs where
  "fs_partial = \<lparr>dirs = [''out'' \<mapsto> [''a.txt'', ''sub'']],
                  files = [''out/a.txt'' \<mapsto> 10, ''out/sub/b.txt'' \<mapsto> 7]\<rparr>"

definition walked_share :: "item list" where
  "walked_share = [file_item ''/sub/b.txt'' 20, file_item ''/c.png'' 5, file_item ''/a.txt'' 10]"

definition local_item :: "string \<Rightarrow> int \<Rightarrow> string \<Rightarrow> int option \<Rightarrow> item" where
  "local_item p n d sz = (file_item p n)\<lparr>dest := Some d, filesize := sz\<rparr>"

text \<open>A record without content length whose destination is a regular file.\<close>

definition stray_dir :: item where
  "stray_dir = (dir_item ''/sub'')\<lparr>dest := Some ''out/sub''\<rparr>"

definition fs_stray :: fs where
  "fs_stray = \<lparr>dirs = [''out'' \<mapsto> [''sub'']], files = [''out/sub'' \<mapsto> 3]\<rparr>"

text \<open>
  A server whose body ends after 50 of the 100 bytes it advertised, and one that
  advertises no length.
\<close>

definition session_short :: session where
  "session_short =
     \<lparr>request = (\<lambda>m u b. response_404),
      get = (\<lambda>u. file_response ''100'' [replicate 30 CHR ''x'', replicate 20 CHR ''y''])\<rparr>"

definition session_unknown :: session where
  "session_unknown =
     \<lparr>request = (\<lambda>m u b. response_404),
      get = (\<lambda>u. (file_response ''0'' [''abc''])\<lparr>headers := Map.empty\<rparr>)\<rparr>"


text \<open>An output root with a percent escape, and the directory a run with it writes to.\<close>

definition args_percent :: args where
  "args_percent = args_out\<lparr>output := ''a%41''\<rparr>"

definition fs_percent :: fs where
  "fs_percent = \<lparr>dirs = [''aA'' \<mapsto> [''f.txt'']], files = [''aA/f.txt'' \<mapsto> 3]\<rparr>"

text \<open>
  An operating system on which every directory can be made and every file opened, but
  for a path that ends in the separator, which names no file to open.
\<close>

definition os_posix :: os_calls where
  "os_posix = \<lparr>makedirs = (\<lambda>name. None),
                open_wb = (\<lambda>p. if endswith p ''/'' then Some (OSError p) else None)\<rparr>"


definition fs_notes :: fs where
  "fs_notes = \<lparr>dirs = [''out'' \<mapsto> [''a.txt'', ''notes'']],
                files = [''out/a.txt'' \<mapsto> 10, ''out/notes'' \<mapsto> 3]\<rparr>"


section \<open>Properties\<close>

subsection \<open>Errors of the parser\<close>







subsection \<open>The listing request\<close>






subsection \<open>The parser\<close>

lemma get_field_present:
  "field_ok r f \<Longrightarrow> get_field r f = Inr (field_text r f)"
  by (auto simp: field_ok_def get_field_def field_text_def first_element_def is_empty_or_text_def
        text_of_def split: list.splits option.splits node.splits sum.splits)

lemma get_href_present:
  "href_ok r \<Longrightarrow> get_href r = Inr (drop LEN_PATH_PREF (href_text r))"
  by (auto simp: href_ok_def get_href_def href_text_def first_element_def
        text_of_def split: list.splits option.splits node.splits sum.splits)

lemma parse_entry_present:
  "fields_present r \<Longrightarrow>
     parse_entry r =
       (case convert_length (field_text r ''contentlength'') of
          Inl e \<Rightarrow> Inl e
        | Inr n \<Rightarrow> Inr (entry_item r n))"
  by (simp add: fields_present_def parse_entry_def get_field_present get_href_present entry_item_def
        split: sum.splits)

lemma py_digits_acc: "py_digits s a = Some n \<Longrightarrow> a \<le> n"
  by (induction s a rule: py_digits.induct) (auto split: if_splits list.splits)

lemma strip_set: "set (strip s) \<subseteq> set s"
  unfolding strip_def
  by (metis dual_order.trans set_dropWhileD set_rev subsetI)

lemma py_int_unsigned:
  assumes "py_int t = Inr n" "CHR ''-'' \<notin> set t"
  shows "0 \<le> n"
proof -
  have "strip t = [] \<or> hd (strip t) \<noteq> CHR ''-''"
    using assms(2) strip_set [of t] by (cases "strip t") auto
  with assms(1) show ?thesis
    by (auto simp: py_int_def Let_def split: option.splits if_splits)
qed




text \<open>
  C6 (as amended). For an entry that has an href with text and an element for each of
  last-modified, content-length and content-type, the parser yields a record unless
  \<^verbatim>\<open>int\<close> rejects the content-length text: a property whose element is empty is
  lacking in the record, the two textual properties are the element's text as it is, and
  contentlength is the integer \<^verbatim>\<open>int\<close> returns for the text. That integer keeps the sign
  of the text; it is non-negative when the text has no minus sign.
\<close>

theorem parse_entry_optional_fields:
  "fields_present r \<Longrightarrow>
     parse_entry r =
       (case field_text r ''contentlength'' of
          None \<Rightarrow> Inr (entry_item r None)
        | Some t \<Rightarrow> (case py_int t of Inl e \<Rightarrow> Inl e | Inr n \<Rightarrow> Inr (entry_item r (Some n))))
     \<and> (\<forall>t n. field_text r ''contentlength'' = Some t \<and> py_int t = Inr n \<and> CHR ''-'' \<notin> set t
            \<longrightarrow> 0 \<le> n)"
  by (auto simp: parse_entry_present convert_length_def py_int_unsigned
        split: option.splits sum.splits)

theorem parse_entry_optional_fields_witness:
  "fields_present entry_a
   \<and> parse_entry entry_a =
       Inr \<lparr>path = ''/a.txt'', lastmodified = Some ''Mon, 01 Jan 2024 10:00:00 GMT'',
            contentlength = Some 10, contenttype = Some ''text/plain'', dest = None,
            filesize = None\<rparr>
   \<and> fields_present entry_root
   \<and> parse_entry entry_root =
       Inr \<lparr>path = ''/'', lastmodified = Some ''Mon, 01 Jan 2024 10:00:00 GMT'',
            contentlength = None, contenttype = None, dest = None, filesize = None\<rparr>"
proof -
  have a: "fields_present entry_a" and b: "fields_present entry_root"
    by code_simp+
  have fa: "field_text entry_a ''contentlength'' = Some ''10''"
    and fb: "field_text entry_root ''contentlength'' = None"
    by code_simp+
  have i: "py_int ''10'' = Inr 10"
    by code_simp
  have ea: "entry_item entry_a (Some 10) =
       \<lparr>path = ''/a.txt'', lastmodified = Some ''Mon, 01 Jan 2024 10:00:00 GMT'',
            contentlength = Some 10, contenttype = Some ''text/plain'', dest = None,
            filesize = None\<rparr>"
    by code_simp
  have eb: "entry_item entry_root None =
       \<lparr>path = ''/'', lastmodified = Some ''Mon, 01 Jan 2024 10:00:00 GMT'',
            contentlength = None, contenttype = None, dest = None, filesize = None\<rparr>"
    by code_simp
  from parse_entry_optional_fields [OF a] parse_entry_optional_fields [OF b]
  show ?thesis
    by (simp add: a b fa fb i ea eb)
qed

text \<open>
  The claim as stated fails on two entries: a content length of \<^verbatim>\<open>-5\<close> is parsed to
  the negative integer, and an entry without a \<^verbatim>\<open>d:getcontenttype\<close> element raises
  \<^verbatim>\<open>IndexError\<close> instead of yielding a record.
\<close>

theorem parse_entry_counterexample:
  "parse_entry entry_negative =
       Inr \<lparr>path = ''/a.txt'', lastmodified = Some ''Mon, 01 Jan 2024 10:00:00 GMT'',
            contentlength = Some (- 5), contenttype = Some ''text/plain'', dest = None,
            filesize = None\<rparr>
   \<and> parse_entry entry_no_type = Inl IndexError"
  by code_simp









subsection \<open>The walker\<close>

lemma foldr_max_ge: "t \<in> set ts \<Longrightarrow> f t \<le> foldr max (map f ts) (0::nat)"
  by (induction ts) auto

lemma leaves_no_dir:
  "tree_ok ld t \<Longrightarrow> x \<in> set (leaves t) \<Longrightarrow> \<not> endswith (path x) ''/''"
  by (induction t arbitrary: x) (auto simp: list_all_iff)

lemma walk_loop_trees:
  assumes step: "\<And>c xs acc. c \<in> set cs \<Longrightarrow>
            walk_loop m ps s host (root_item c # xs) acc
              = walk_loop m ps s host xs (acc @ leaves c)"
  shows "walk_loop m ps s host (map root_item cs @ ys) acc
           = walk_loop m ps s host ys (acc @ concat (map leaves cs))"
  using step
proof (induction cs arbitrary: acc)
  case Nil
  then show ?case by simp
next
  case (Cons c cs)
  have first: "walk_loop m ps s host (root_item c # (map root_item cs @ ys)) acc
      = walk_loop m ps s host (map root_item cs @ ys) (acc @ leaves c)"
    by (rule Cons.prems) simp
  have rest: "walk_loop m ps s host (map root_item cs @ ys) (acc @ leaves c)
      = walk_loop m ps s host ys ((acc @ leaves c) @ concat (map leaves cs))"
  proof (rule Cons.IH)
    fix c' xs a
    assume "c' \<in> set cs"
    then have "c' \<in> set (c # cs)" by simp
    then show "walk_loop m ps s host (root_item c' # xs) a
        = walk_loop m ps s host xs (a @ leaves c')"
      by (rule Cons.prems)
  qed
  have "map root_item (c # cs) @ ys = root_item c # (map root_item cs @ ys)"
    by simp
  with first rest show ?case
    by (simp del: walk_loop.simps)
qed

lemma walk_loop_tree:
  "tree_ok (list_dir ps s host) t \<Longrightarrow> depth t \<le> n \<Longrightarrow>
     walk_loop n ps s host (root_item t # xs) acc = walk_loop n ps s host xs (acc @ leaves t)"
proof (induction t arbitrary: n xs acc)
  case (RFile x)
  then show ?case by simp
next
  case (RDir d cs)
  from RDir.prems(2) obtain m where n: "n = Suc m" and m: "foldr max (map depth cs) 0 \<le> m"
    by (cases n) auto
  have sub: "walk_loop m ps s host (root_item c # ys) a = walk_loop m ps s host ys (a @ leaves c)"
    if "c \<in> set cs" for c ys a
  proof (rule RDir.IH [OF that])
    show "tree_ok (list_dir ps s host) c"
      using RDir.prems(1) that by (simp add: list_all_iff)
    show "depth c \<le> m"
      using foldr_max_ge [OF that, of depth] m by simp
  qed
  have "walk_loop m ps s host (map root_item cs @ []) [] 
      = walk_loop m ps s host [] ([] @ concat (map leaves cs))"
    by (rule walk_loop_trees) (rule sub)
  then have "walk_dir n ps s host (path d) = Some (Inr (concat (map leaves cs)))"
    using RDir.prems(1) by (simp add: n)
  then show ?case
    using RDir.prems(1) by simp
qed

lemma walk_no_dirs:
  shows "walk_dir n ps s host p = Some (Inr fs) \<longrightarrow> (\<forall>x\<in>set fs. \<not> endswith (path x) ''/'')"
    and "walk_loop n ps s host xs acc = Some (Inr fs) \<longrightarrow> (\<forall>x\<in>set acc. \<not> endswith (path x) ''/'')
        \<longrightarrow> (\<forall>x\<in>set fs. \<not> endswith (path x) ''/'')"
proof (induction n ps s host p and n ps s host xs acc arbitrary: fs and fs rule: walk_dir_walk_loop.induct)
  case (1 parseString s host p)
  then show ?case by simp
next
  case (2 n parseString s host p)
  then show ?case by (auto split: sum.splits)
next
  case (3 n parseString s host files)
  then show ?case by simp
next
  case (4 n parseString s host x xs files)
  show ?case
  proof (cases "endswith (path x) ''/''")
    case True
    show ?thesis
    proof (intro impI)
      assume res: "walk_loop n parseString s host (x # xs) files = Some (Inr fs)"
        and acc: "\<forall>x\<in>set files. \<not> endswith (path x) ''/''"
      from res True obtain sub where
        sub: "walk_dir n parseString s host (path x) = Some (Inr sub)"
        and rest: "walk_loop n parseString s host xs (files @ sub) = Some (Inr fs)"
        by (auto split: option.splits sum.splits)
      from 4(1) [OF True, of sub] sub have "\<forall>x\<in>set sub. \<not> endswith (path x) ''/''"
        by simp
      with acc have "\<forall>x\<in>set (files @ sub). \<not> endswith (path x) ''/''"
        by auto
      with 4(2) [OF True sub refl, of fs] rest
      show "\<forall>x\<in>set fs. \<not> endswith (path x) ''/''"
        by simp
    qed
  next
    case False
    then show ?thesis
      using 4(3)[OF False] by auto
  qed
qed


lemma walk_fuel_mono:
  shows "walk_dir n ps s host p = Some r \<longrightarrow> walk_dir (n + k) ps s host p = Some r"
    and "walk_loop n ps s host xs acc = Some r \<longrightarrow> walk_loop (n + k) ps s host xs acc = Some r"
proof (induction n ps s host p and n ps s host xs acc arbitrary: r and r
       rule: walk_dir_walk_loop.induct)
  case (1 parseString s host p)
  then show ?case by simp
next
  case (2 n parseString s host p)
  then show ?case by (auto split: sum.splits)
next
  case (3 n parseString s host files)
  then show ?case by simp
next
  case (4 n parseString s host x xs files)
  show ?case
  proof (cases "endswith (path x) ''/''")
    case True
    show ?thesis
    proof (intro impI)
      assume res: "walk_loop n parseString s host (x # xs) files = Some r"
      from res True obtain w where w: "walk_dir n parseString s host (path x) = Some w"
        by (auto split: option.splits)
      with 4(1) [OF True, of w] have w': "walk_dir (n + k) parseString s host (path x) = Some w"
        by simp
      show "walk_loop (n + k) parseString s host (x # xs) files = Some r"
      proof (cases w)
        case (Inl e)
        then show ?thesis
          using res w w' True by auto
      next
        case (Inr sub)
        with res w True have "walk_loop n parseString s host xs (files @ sub) = Some r"
          by simp
        with 4(2) [OF True w Inr, of r]
        have "walk_loop (n + k) parseString s host xs (files @ sub) = Some r"
          by simp
        with w' Inr True show ?thesis by simp
      qed
    qed
  next
    case False
    then show ?thesis
      using 4(3) [OF False, of r] by simp
  qed
qed

lemma walk_dir_more_fuel:
  "walk_dir n ps s host p = Some r \<Longrightarrow> walk_dir (n + k) ps s host p = Some r"
  by (rule walk_fuel_mono(1) [rule_format])

lemma walk_dir_trees:
  assumes "list_dir ps s host p = Inr (map root_item ts)"
    and "list_all (tree_ok (list_dir ps s host)) ts"
    and "max_depth ts < n"
  shows "walk_dir n ps s host p = Some (Inr (concat (map leaves ts)))"
proof -
  from assms(3) obtain m where n: "n = Suc m" and m: "max_depth ts \<le> m"
    by (cases n) auto
  have "walk_loop m ps s host (map root_item ts @ []) []
      = walk_loop m ps s host [] ([] @ concat (map leaves ts))"
  proof (rule walk_loop_trees)
    fix c xs acc
    assume c: "c \<in> set ts"
    then have "tree_ok (list_dir ps s host) c"
      using assms(2) by (simp add: list_all_iff)
    moreover have "depth c \<le> m"
      using foldr_max_ge [OF c, of depth] m by (simp add: max_depth_def)
    ultimately show "walk_loop m ps s host (root_item c # xs) acc
        = walk_loop m ps s host xs (acc @ leaves c)"
      by (rule walk_loop_tree)
  qed
  with assms(1) show ?thesis
    by (simp add: n)
qed

text \<open>
  C2. When the listing of the starting path is the roots of a list of served trees, the
  walk returns exactly the files of those trees, however deep they lie: with more fuel
  than the depth of the trees it returns the leaves in listing order, a directory's files
  in the place of the directory; whatever the fuel, a walk that returns returns that list;
  and no item of it has a path that ends in the separator. The last holds of every walk
  that returns, whatever the server answers.
\<close>

theorem walk_dir_returns_leaves:
  assumes "list_dir ps s host p = Inr (map root_item ts)"
    and "list_all (tree_ok (list_dir ps s host)) ts"
  shows "(\<forall>n. max_depth ts < n \<longrightarrow>
            walk_dir n ps s host p = Some (Inr (concat (map leaves ts))))
       \<and> (\<forall>n fs. walk_dir n ps s host p = Some (Inr fs) \<longrightarrow> fs = concat (map leaves ts))
       \<and> (\<forall>x\<in>set (concat (map leaves ts)). \<not> endswith (path x) ''/'')
       \<and> (\<forall>n q fs. walk_dir n ps s host q = Some (Inr fs) \<longrightarrow>
            (\<forall>x\<in>set fs. \<not> endswith (path x) ''/''))"
proof (intro conjI allI impI)
  fix n
  assume "max_depth ts < n"
  with assms show "walk_dir n ps s host p = Some (Inr (concat (map leaves ts)))"
    by (rule walk_dir_trees)
next
  fix n fs
  assume w: "walk_dir n ps s host p = Some (Inr fs)"
  then have "walk_dir (n + Suc (max_depth ts)) ps s host p = Some (Inr fs)"
    by (rule walk_dir_more_fuel)
  moreover have "walk_dir (n + Suc (max_depth ts)) ps s host p
      = Some (Inr (concat (map leaves ts)))"
    using assms by (rule walk_dir_trees) simp
  ultimately show "fs = concat (map leaves ts)"
    by simp
next
  show "\<forall>x\<in>set (concat (map leaves ts)). \<not> endswith (path x) ''/''"
    using assms(2) by (auto simp: list_all_iff dest: leaves_no_dir)
next
  fix n q fs
  assume "walk_dir n ps s host q = Some (Inr fs)"
  with walk_no_dirs(1) [of n ps s host q fs]
  show "\<forall>x\<in>set fs. \<not> endswith (path x) ''/''"
    by blast
qed

theorem walk_dir_returns_leaves_witness:
  "walk_dir 2 parse_share session_share ''https://h'' ''/''
     = Some (Inr [file_item ''/a.txt'' 10, file_item ''/sub/b.txt'' 20])
   \<and> \<not> endswith (path (file_item ''/a.txt'' 10)) ''/''
   \<and> \<not> endswith (path (file_item ''/sub/b.txt'' 20)) ''/''"
proof -
  have ld: "list_dir parse_share session_share ''https://h'' ''/'' = Inr (map root_item tree_share)"
    by code_simp
  have ok: "list_all (tree_ok (list_dir parse_share session_share ''https://h'')) tree_share"
    by code_simp
  have d: "max_depth tree_share < 2"
    by code_simp
  have lv: "concat (map leaves tree_share) = [file_item ''/a.txt'' 10, file_item ''/sub/b.txt'' 20]"
    by (simp add: tree_share_def)
  from walk_dir_returns_leaves [OF ld ok] d show ?thesis
    unfolding lv by simp
qed

subsection \<open>The reconciler\<close>

lemma check_loop_dest:
  assumes "list_all (\<lambda>x. dest x \<noteq> None) xs"
  shows "check_loop f xs (new, existing, mismatched) =
     (if list_all (checkable f) xs
      then Inr (new @ of_class f New xs,
                existing @ map (with_size f) (of_class f Existing xs),
                mismatched @ map (with_size f) (of_class f Mismatched xs))
      else Inl (KeyError ''contentlength''))"
  using assms
proof (induction xs arbitrary: new existing mismatched)
  case Nil
  then show ?case by (simp add: of_class_def)
next
  case (Cons x xs)
  from Cons.prems obtain d where d: "dest x = Some d" and rest: "list_all (\<lambda>x. dest x \<noteq> None) xs"
    by auto
  note IH = Cons.IH [OF rest]
  show ?case
  proof (cases "files f d")
    case None
    then show ?thesis
      using d by (simp add: IH isfile_def of_class_def classify_def local_size_def checkable_def)
  next
    case (Some n)
    show ?thesis
    proof (cases "contentlength x")
      case None
      then show ?thesis
        using d Some by (simp add: isfile_def getsize_def checkable_def local_size_def)
    next
      case (Some c)
      then show ?thesis
        using d \<open>files f d = Some n\<close>
        by (auto simp: IH isfile_def getsize_def of_class_def classify_def local_size_def
              checkable_def with_size_def)
    qed
  qed
qed

lemma check_files_dest:
  assumes "list_all (\<lambda>x. dest x \<noteq> None) xs"
  shows "check_files f xs =
     (if list_all (checkable f) xs
      then Inr (of_class f New xs,
                map (with_size f) (of_class f Mismatched xs),
                map (with_size f) (of_class f Existing xs))
      else Inl (KeyError ''contentlength''))"
  by (simp add: check_files_def check_loop_dest [OF assms])

lemma candidates_dest: "list_all (\<lambda>x. dest x \<noteq> None) (candidates fnmatch a walked)"
  by (auto simp: candidates_def Let_def list_all_iff set_dest_def)

lemma glob_filter_iff: "glob_filter fnmatch p gs = (\<exists>g\<in>set gs. fnmatch p g)"
  by (induction gs) auto

lemma of_class_lengths:
  "length (of_class f New xs) + length (of_class f Mismatched xs) + length (of_class f Existing xs)
     = length xs"
proof (induction xs)
  case Nil
  then show ?case by (simp add: of_class_def)
next
  case (Cons x xs)
  then show ?case
    by (cases "classify f x") (simp_all add: of_class_def)
qed


lemma class_new:
  "dest x = Some d \<Longrightarrow> \<not> isfile f d \<Longrightarrow> classify f x = New"
  by (simp add: classify_def local_size_def isfile_def)

lemma class_existing:
  "dest x = Some d \<Longrightarrow> getsize f d = Inr n \<Longrightarrow> contentlength x = Some n \<Longrightarrow>
     classify f x = Existing \<and> with_size f x = x\<lparr>filesize := Some n\<rparr>"
  by (auto simp: classify_def local_size_def getsize_def with_size_def split: option.splits)

lemma class_mismatched:
  "dest x = Some d \<Longrightarrow> getsize f d = Inr n \<Longrightarrow> contentlength x \<noteq> Some n \<Longrightarrow>
     classify f x = Mismatched \<and> with_size f x = x\<lparr>filesize := Some n\<rparr>"
  by (auto simp: classify_def local_size_def getsize_def with_size_def split: option.splits)

lemma file_lists_empty_dir:
  "\<not> check_dir_not_empty f (output a) \<Longrightarrow>
     file_lists fnmatch a f walked = Inr (candidates fnmatch a walked, [], [])"
  by (simp add: file_lists_def Let_def)

lemma file_lists_checked:
  "check_dir_not_empty f (output a) \<Longrightarrow>
     file_lists fnmatch a f walked =
       (if list_all (checkable f) (candidates fnmatch a walked)
        then Inr (of_class f New (candidates fnmatch a walked),
                  map (with_size f) (of_class f Mismatched (candidates fnmatch a walked)),
                  map (with_size f) (of_class f Existing (candidates fnmatch a walked)))
        else Inl (KeyError ''contentlength''))"
  by (simp add: file_lists_def Let_def check_files_dest [OF candidates_dest])

lemma get_file_lists_walked:
  "walk_dir fuel ps s host p = Some (Inr walked) \<Longrightarrow>
     get_file_lists fuel ps fnmatch f s host p a = Some (file_lists fnmatch a f walked)"
  by (simp add: get_file_lists_def)

lemma check_dir_not_empty_iff:
  "check_dir_not_empty f p = (\<exists>e es. dirs f p = Some (e # es))"
  by (cases "dirs f p")
     (auto simp: check_dir_not_empty_def isdir_def listdir_def neq_Nil_conv)

text \<open>
  C1 (as amended). Let \<open>xs\<close> be the list after sorting, destinations and filtering. When
  the output directory does not exist, or exists and has no entry, every file of \<open>xs\<close> is
  new, whatever the snapshot says of regular files. When the output directory has an
  entry and every file of \<open>xs\<close> whose destination is a regular file carries a content
  length, the three lists are the files of \<open>xs\<close> of each class: no regular file at the
  destination makes the file new, a regular file of the size \<^verbatim>\<open>contentlength\<close> makes it
  existing, a regular file of another size makes it mismatched, the last two with the
  local size recorded as \<^verbatim>\<open>filesize\<close>. A file has one class, and the lengths of the three
  lists add up to the length of \<open>xs\<close>. When the output directory has an entry and some file
  whose destination is a regular file lacks the content length, the reconciler raises
  \<^verbatim>\<open>KeyError\<close> and classifies nothing.
\<close>

theorem file_lists_classification:
  fixes fnmatch a f walked
  defines "xs \<equiv> candidates fnmatch a walked"
  shows "(dirs f (output a) = None \<or> dirs f (output a) = Some [] \<longrightarrow>
            file_lists fnmatch a f walked = Inr (xs, [], [])
          \<and> (\<forall>g. file_lists fnmatch a (f\<lparr>files := g\<rparr>) walked = Inr (xs, [], [])))
       \<and> ((\<exists>e es. dirs f (output a) = Some (e # es)) \<and> list_all (checkable f) xs \<longrightarrow>
            (\<exists>new mismatched existing.
               file_lists fnmatch a f walked = Inr (new, mismatched, existing)
             \<and> new = of_class f New xs
             \<and> mismatched = map (with_size f) (of_class f Mismatched xs)
             \<and> existing = map (with_size f) (of_class f Existing xs)
             \<and> length new + length mismatched + length existing = length xs
             \<and> (\<forall>x\<in>set xs. \<forall>d. dest x = Some d \<longrightarrow>
                   (\<not> isfile f d \<longrightarrow> classify f x = New \<and> x \<in> set new)
                 \<and> (\<forall>n. getsize f d = Inr n \<and> contentlength x = Some n \<longrightarrow>
                        classify f x = Existing \<and> x\<lparr>filesize := Some n\<rparr> \<in> set existing)
                 \<and> (\<forall>n. getsize f d = Inr n \<and> contentlength x \<noteq> Some n \<longrightarrow>
                        classify f x = Mismatched \<and> x\<lparr>filesize := Some n\<rparr> \<in> set mismatched))))
       \<and> ((\<exists>e es. dirs f (output a) = Some (e # es)) \<and> \<not> list_all (checkable f) xs \<longrightarrow>
            file_lists fnmatch a f walked = Inl (KeyError ''contentlength''))"
proof (intro conjI impI)
  assume e: "dirs f (output a) = None \<or> dirs f (output a) = Some []"
  then have "\<not> check_dir_not_empty f (output a)"
    by (auto simp: check_dir_not_empty_iff)
  then show "file_lists fnmatch a f walked = Inr (xs, [], [])"
    by (simp add: file_lists_empty_dir xs_def)
  show "\<forall>g. file_lists fnmatch a (f\<lparr>files := g\<rparr>) walked = Inr (xs, [], [])"
  proof
    fix g
    from e have "\<not> check_dir_not_empty (f\<lparr>files := g\<rparr>) (output a)"
      by (auto simp: check_dir_not_empty_iff)
    then show "file_lists fnmatch a (f\<lparr>files := g\<rparr>) walked = Inr (xs, [], [])"
      by (simp add: file_lists_empty_dir xs_def)
  qed
next
  assume "(\<exists>e es. dirs f (output a) = Some (e # es)) \<and> \<not> list_all (checkable f) xs"
  then have "check_dir_not_empty f (output a)" and "\<not> list_all (checkable f) xs"
    by (simp_all add: check_dir_not_empty_iff)
  then show "file_lists fnmatch a f walked = Inl (KeyError ''contentlength'')"
    by (simp add: file_lists_checked xs_def)
next
  assume h: "(\<exists>e es. dirs f (output a) = Some (e # es)) \<and> list_all (checkable f) xs"
  then have ne: "check_dir_not_empty f (output a) \<and> list_all (checkable f) xs"
    by (simp add: check_dir_not_empty_iff)
  have members: "\<forall>x\<in>set xs. \<forall>d. dest x = Some d \<longrightarrow>
                   (\<not> isfile f d \<longrightarrow> classify f x = New \<and> x \<in> set (of_class f New xs))
                 \<and> (\<forall>n. getsize f d = Inr n \<and> contentlength x = Some n \<longrightarrow>
                        classify f x = Existing
                        \<and> x\<lparr>filesize := Some n\<rparr> \<in> set (map (with_size f) (of_class f Existing xs)))
                 \<and> (\<forall>n. getsize f d = Inr n \<and> contentlength x \<noteq> Some n \<longrightarrow>
                        classify f x = Mismatched
                        \<and> x\<lparr>filesize := Some n\<rparr> \<in> set (map (with_size f) (of_class f Mismatched xs)))"
  proof (intro ballI allI impI conjI)
    fix x d
    assume x: "x \<in> set xs" and d: "dest x = Some d"
    {
      assume "\<not> isfile f d"
      then show "classify f x = New" by (rule class_new [OF d])
      then show "x \<in> set (of_class f New xs)" using x by (simp add: of_class_def)
    }
    {
      fix n
      assume h: "getsize f d = Inr n \<and> contentlength x = Some n"
      then have c: "classify f x = Existing \<and> with_size f x = x\<lparr>filesize := Some n\<rparr>"
        using class_existing [OF d] by blast
      then show "classify f x = Existing" by simp
      from c x have "x \<in> set (of_class f Existing xs)"
        by (simp add: of_class_def)
      then have "with_size f x \<in> with_size f ` set (of_class f Existing xs)"
        by (rule imageI)
      with c show "x\<lparr>filesize := Some n\<rparr> \<in> set (map (with_size f) (of_class f Existing xs))"
        by simp
    }
    {
      fix n
      assume h: "getsize f d = Inr n \<and> contentlength x \<noteq> Some n"
      then have c: "classify f x = Mismatched \<and> with_size f x = x\<lparr>filesize := Some n\<rparr>"
        using class_mismatched [OF d] by blast
      then show "classify f x = Mismatched" by simp
      from c x have "x \<in> set (of_class f Mismatched xs)"
        by (simp add: of_class_def)
      then have "with_size f x \<in> with_size f ` set (of_class f Mismatched xs)"
        by (rule imageI)
      with c show "x\<lparr>filesize := Some n\<rparr> \<in> set (map (with_size f) (of_class f Mismatched xs))"
        by simp
    }
  qed
  have res: "file_lists fnmatch a f walked =
      Inr (of_class f New xs, map (with_size f) (of_class f Mismatched xs),
           map (with_size f) (of_class f Existing xs))"
    using ne by (simp add: file_lists_checked xs_def)
  have len: "length (of_class f New xs) + length (map (with_size f) (of_class f Mismatched xs))
      + length (map (with_size f) (of_class f Existing xs)) = length xs"
    using of_class_lengths [of f xs] by simp
  show "\<exists>new mismatched existing.
               file_lists fnmatch a f walked = Inr (new, mismatched, existing)
             \<and> new = of_class f New xs
             \<and> mismatched = map (with_size f) (of_class f Mismatched xs)
             \<and> existing = map (with_size f) (of_class f Existing xs)
             \<and> length new + length mismatched + length existing = length xs
             \<and> (\<forall>x\<in>set xs. \<forall>d. dest x = Some d \<longrightarrow>
                   (\<not> isfile f d \<longrightarrow> classify f x = New \<and> x \<in> set new)
                 \<and> (\<forall>n. getsize f d = Inr n \<and> contentlength x = Some n \<longrightarrow>
                        classify f x = Existing \<and> x\<lparr>filesize := Some n\<rparr> \<in> set existing)
                 \<and> (\<forall>n. getsize f d = Inr n \<and> contentlength x \<noteq> Some n \<longrightarrow>
                        classify f x = Mismatched \<and> x\<lparr>filesize := Some n\<rparr> \<in> set mismatched))"
    using res len members by blast
qed

theorem file_lists_classification_witness:
  "file_lists fnmatch_simple args_out fs_empty walked_share
     = Inr ([local_item ''/a.txt'' 10 ''out/a.txt'' None,
             local_item ''/c.png'' 5 ''out/c.png'' None,
             local_item ''/sub/b.txt'' 20 ''out/sub/b.txt'' None], [], [])
   \<and> file_lists fnmatch_simple args_out fs_hollow walked_share
     = Inr ([local_item ''/a.txt'' 10 ''out/a.txt'' None,
             local_item ''/c.png'' 5 ''out/c.png'' None,
             local_item ''/sub/b.txt'' 20 ''out/sub/b.txt'' None], [], [])
   \<and> file_lists fnmatch_simple args_out fs_partial walked_share
     = Inr ([local_item ''/c.png'' 5 ''out/c.png'' None],
            [local_item ''/sub/b.txt'' 20 ''out/sub/b.txt'' (Some 7)],
            [local_item ''/a.txt'' 10 ''out/a.txt'' (Some 10)])"
proof -
  have e: "dirs fs_empty (output args_out) = None"
    by code_simp
  have h: "dirs fs_hollow (output args_out) = Some []"
    by code_simp
  have ne: "\<exists>e es. dirs fs_partial (output args_out) = Some (e # es)"
    by (simp add: fs_partial_def args_out_def)
  have ok: "list_all (checkable fs_partial) (candidates fnmatch_simple args_out walked_share)"
    by code_simp
  have c: "candidates fnmatch_simple args_out walked_share
     = [local_item ''/a.txt'' 10 ''out/a.txt'' None,
        local_item ''/c.png'' 5 ''out/c.png'' None,
        local_item ''/sub/b.txt'' 20 ''out/sub/b.txt'' None]"
    by code_simp
  have n: "of_class fs_partial New (candidates fnmatch_simple args_out walked_share)
     = [local_item ''/c.png'' 5 ''out/c.png'' None]"
    by code_simp
  have m: "map (with_size fs_partial)
        (of_class fs_partial Mismatched (candidates fnmatch_simple args_out walked_share))
     = [local_item ''/sub/b.txt'' 20 ''out/sub/b.txt'' (Some 7)]"
    by code_simp
  have x: "map (with_size fs_partial)
        (of_class fs_partial Existing (candidates fnmatch_simple args_out walked_share))
     = [local_item ''/a.txt'' 10 ''out/a.txt'' (Some 10)]"
    by code_simp
  from file_lists_classification [where f = fs_empty and a = args_out
      and fnmatch = fnmatch_simple and walked = walked_share] e
  have 1: "file_lists fnmatch_simple args_out fs_empty walked_share
     = Inr (candidates fnmatch_simple args_out walked_share, [], [])"
    by blast
  from file_lists_classification [where f = fs_hollow and a = args_out
      and fnmatch = fnmatch_simple and walked = walked_share] h
  have 2: "file_lists fnmatch_simple args_out fs_hollow walked_share
     = Inr (candidates fnmatch_simple args_out walked_share, [], [])"
    by blast
  from file_lists_classification [where f = fs_partial and a = args_out
      and fnmatch = fnmatch_simple and walked = walked_share] ne ok
  have 3: "file_lists fnmatch_simple args_out fs_partial walked_share
     = Inr (of_class fs_partial New (candidates fnmatch_simple args_out walked_share),
            map (with_size fs_partial)
              (of_class fs_partial Mismatched (candidates fnmatch_simple args_out walked_share)),
            map (with_size fs_partial)
              (of_class fs_partial Existing (candidates fnmatch_simple args_out walked_share)))"
    by blast
  from 1 2 3 show ?thesis
    unfolding c [symmetric] n m x by simp
qed

text \<open>
  The claim as stated fails on a list with a record that has no content length and a
  regular file at its destination: the output directory has entries, and the
  reconciler raises \<^verbatim>\<open>KeyError\<close> where the claim has every file in one of the three
  classes.
\<close>

theorem file_lists_classification_counterexample:
  "dirs fs_notes (output args_out) = Some [''a.txt'', ''notes'']
   \<and> isfile fs_notes (destination args_out (dir_item ''/notes''))
   \<and> contentlength (dir_item ''/notes'') = None
   \<and> file_lists fnmatch_simple args_out fs_notes [file_item ''/a.txt'' 10, dir_item ''/notes'']
     = Inl (KeyError ''contentlength'')"
  by code_simp

lemma candidates_glob:
  "glob a = Some gs \<Longrightarrow> gs \<noteq> [] \<Longrightarrow>
     candidates fnmatch a walked
       = filter (\<lambda>x. \<exists>g\<in>set gs. fnmatch (the (dest x)) g)
           (map (set_dest a) (sort_key path walked))"
  by (simp add: candidates_def glob_given_def Let_def glob_filter_iff)

lemma dest_set_dest: "dest (set_dest a x) = Some (destination a x)"
  by (simp add: set_dest_def)

lemma candidates_glob_set:
  "glob a = Some gs \<Longrightarrow> gs \<noteq> [] \<Longrightarrow>
     set (candidates fnmatch a walked)
       = {set_dest a x | x. x \<in> set walked \<and> (\<exists>g\<in>set gs. fnmatch (destination a x) g)}"
  by (fastforce simp: candidates_glob dest_set_dest)

lemma dest_with_size: "dest (with_size f x) = dest x"
  by (simp add: with_size_def)

lemma file_lists_members:
  assumes "file_lists fnmatch a f walked = Inr (new, mismatched, existing)"
  shows "set new \<union> set mismatched \<union> set existing
           \<subseteq> set (candidates fnmatch a walked) \<union> with_size f ` set (candidates fnmatch a walked)"
    and "\<forall>x\<in>set (candidates fnmatch a walked).
           x \<in> set new \<or> with_size f x \<in> set mismatched \<union> set existing"
proof -
  let ?xs = "candidates fnmatch a walked"
  have cases: "(new = ?xs \<and> mismatched = [] \<and> existing = [])
      \<or> (new = of_class f New ?xs \<and> mismatched = map (with_size f) (of_class f Mismatched ?xs)
          \<and> existing = map (with_size f) (of_class f Existing ?xs))"
  proof (cases "check_dir_not_empty f (output a)")
    case True
    with assms show ?thesis
      by (simp add: file_lists_checked split: if_splits)
  next
    case False
    with assms show ?thesis
      by (simp add: file_lists_empty_dir)
  qed
  from cases show "set new \<union> set mismatched \<union> set existing
           \<subseteq> set ?xs \<union> with_size f ` set ?xs"
    by (auto simp: of_class_def)
  show "\<forall>x\<in>set ?xs. x \<in> set new \<or> with_size f x \<in> set mismatched \<union> set existing"
  proof
    fix x
    assume x: "x \<in> set ?xs"
    from cases show "x \<in> set new \<or> with_size f x \<in> set mismatched \<union> set existing"
    proof
      assume "new = ?xs \<and> mismatched = [] \<and> existing = []"
      with x show ?thesis by simp
    next
      assume c: "new = of_class f New ?xs
          \<and> mismatched = map (with_size f) (of_class f Mismatched ?xs)
          \<and> existing = map (with_size f) (of_class f Existing ?xs)"
      show ?thesis
      proof (cases "classify f x")
        case New
        with x c show ?thesis by (simp add: of_class_def)
      next
        case Mismatched
        with x have "x \<in> set (of_class f Mismatched ?xs)" by (simp add: of_class_def)
        then have "with_size f x \<in> with_size f ` set (of_class f Mismatched ?xs)" by (rule imageI)
        with c show ?thesis by simp
      next
        case Existing
        with x have "x \<in> set (of_class f Existing ?xs)" by (simp add: of_class_def)
        then have "with_size f x \<in> with_size f ` set (of_class f Existing ?xs)" by (rule imageI)
        with c show ?thesis by simp
      qed
    qed
  qed
qed

text \<open>
  C8. With a non-empty list of patterns, the files that go into the classification are
  those of the sorted list whose destination matches at least one pattern, in order.
  Whatever \<^verbatim>\<open>get_file_lists\<close> then returns, every item of the three lists has a
  destination that matches a pattern; a walked file whose destination matches is in one
  of the lists (as it is in new, or with its local size in the other two); and a walked
  file whose destination matches no pattern is in none of them.
\<close>

theorem glob_filter_retains_matching:
  assumes "glob a = Some gs" and "gs \<noteq> []"
  shows "candidates fnmatch a walked
           = filter (\<lambda>x. \<exists>g\<in>set gs. fnmatch (the (dest x)) g)
               (map (set_dest a) (sort_key path walked))
       \<and> (\<forall>new mismatched existing.
            file_lists fnmatch a f walked = Inr (new, mismatched, existing) \<longrightarrow>
              (\<forall>y\<in>set new \<union> set mismatched \<union> set existing.
                 \<exists>g\<in>set gs. fnmatch (the (dest y)) g)
            \<and> (\<forall>x\<in>set walked.
                 if \<exists>g\<in>set gs. fnmatch (destination a x) g
                 then set_dest a x \<in> set new
                      \<or> with_size f (set_dest a x) \<in> set mismatched \<union> set existing
                 else set_dest a x \<notin> set new \<union> set mismatched \<union> set existing
                      \<and> with_size f (set_dest a x) \<notin> set new \<union> set mismatched \<union> set existing))"
proof (intro conjI allI impI)
  show "candidates fnmatch a walked
           = filter (\<lambda>x. \<exists>g\<in>set gs. fnmatch (the (dest x)) g)
               (map (set_dest a) (sort_key path walked))"
    using assms by (rule candidates_glob)
next
  fix new mismatched existing
  assume res: "file_lists fnmatch a f walked = Inr (new, mismatched, existing)"
  note cs = candidates_glob_set [OF assms, of fnmatch walked]
  show matched: "\<forall>y\<in>set new \<union> set mismatched \<union> set existing.
      \<exists>g\<in>set gs. fnmatch (the (dest y)) g"
  proof
    fix y
    assume "y \<in> set new \<union> set mismatched \<union> set existing"
    with file_lists_members(1) [OF res]
    have "y \<in> set (candidates fnmatch a walked)
        \<or> y \<in> with_size f ` set (candidates fnmatch a walked)"
      by blast
    then obtain x where x: "x \<in> set walked" "\<exists>g\<in>set gs. fnmatch (destination a x) g"
        and y: "y = set_dest a x \<or> y = with_size f (set_dest a x)"
      unfolding cs by blast
    from y have "dest y = Some (destination a x)"
      by (auto simp: dest_with_size set_dest_def)
    with x(2) show "\<exists>g\<in>set gs. fnmatch (the (dest y)) g"
      by simp
  qed
  show "\<forall>x\<in>set walked.
           if \<exists>g\<in>set gs. fnmatch (destination a x) g
           then set_dest a x \<in> set new
                \<or> with_size f (set_dest a x) \<in> set mismatched \<union> set existing
           else set_dest a x \<notin> set new \<union> set mismatched \<union> set existing
                \<and> with_size f (set_dest a x) \<notin> set new \<union> set mismatched \<union> set existing"
  proof
    fix x
    assume x: "x \<in> set walked"
    show "if \<exists>g\<in>set gs. fnmatch (destination a x) g
           then set_dest a x \<in> set new
                \<or> with_size f (set_dest a x) \<in> set mismatched \<union> set existing
           else set_dest a x \<notin> set new \<union> set mismatched \<union> set existing
                \<and> with_size f (set_dest a x) \<notin> set new \<union> set mismatched \<union> set existing"
    proof (cases "\<exists>g\<in>set gs. fnmatch (destination a x) g")
      case True
      with x have "set_dest a x \<in> set (candidates fnmatch a walked)"
        unfolding cs by blast
      with file_lists_members(2) [OF res] True show ?thesis
        by simp
    next
      case False
      have d1: "dest (set_dest a x) = Some (destination a x)"
        by (simp add: set_dest_def)
      have d2: "dest (with_size f (set_dest a x)) = Some (destination a x)"
        by (simp add: dest_with_size set_dest_def)
      from matched False d1 d2 show ?thesis
        by (metis option.sel)
    qed
  qed
qed

theorem glob_filter_retains_matching_witness:
  "candidates fnmatch_simple args_txt walked_share
     = [local_item ''/a.txt'' 10 ''out/a.txt'' None,
        local_item ''/sub/b.txt'' 20 ''out/sub/b.txt'' None]
   \<and> file_lists fnmatch_simple args_txt fs_partial walked_share
     = Inr ([], [local_item ''/sub/b.txt'' 20 ''out/sub/b.txt'' (Some 7)],
            [local_item ''/a.txt'' 10 ''out/a.txt'' (Some 10)])
   \<and> \<not> fnmatch_simple (destination args_txt (file_item ''/c.png'' 5)) ''*.txt''
   \<and> set_dest args_txt (file_item ''/c.png'' 5)
       \<notin> set [local_item ''/sub/b.txt'' 20 ''out/sub/b.txt'' (Some 7)]
         \<union> set [local_item ''/a.txt'' 10 ''out/a.txt'' (Some 10)]"
proof -
  have g: "glob args_txt = Some [''*.txt'']" and ne: "[''*.txt''] \<noteq> ([] :: string list)"
    by (simp_all add: args_txt_def)
  have r: "file_lists fnmatch_simple args_txt fs_partial walked_share
     = Inr ([], [local_item ''/sub/b.txt'' 20 ''out/sub/b.txt'' (Some 7)],
            [local_item ''/a.txt'' 10 ''out/a.txt'' (Some 10)])"
    by code_simp
  have f: "filter (\<lambda>x. \<exists>g\<in>set [''*.txt'']. fnmatch_simple (the (dest x)) g)
               (map (set_dest args_txt) (sort_key path walked_share))
     = [local_item ''/a.txt'' 10 ''out/a.txt'' None,
        local_item ''/sub/b.txt'' 20 ''out/sub/b.txt'' None]"
    by code_simp
  have c: "file_item ''/c.png'' 5 \<in> set walked_share"
    by (simp add: walked_share_def)
  have nm: "\<not> (\<exists>g\<in>set [''*.txt'']. fnmatch_simple (destination args_txt (file_item ''/c.png'' 5)) g)"
    by code_simp
  from glob_filter_retains_matching [OF g ne, of fnmatch_simple walked_share fs_partial] r c nm
  show ?thesis
    unfolding f by auto
qed

lemma checkable_iff:
  "dest x = Some d \<Longrightarrow> checkable f x = (isfile f d \<longrightarrow> contentlength x \<noteq> None)"
  by (auto simp: checkable_def local_size_def isfile_def)

text \<open>
  C10. For records that all have a destination, \<^verbatim>\<open>check_files\<close> fails with the
  \<^verbatim>\<open>KeyError\<close> of the key \<^verbatim>\<open>contentlength\<close> exactly when some record whose destination
  is a regular file lacks the content length, and it returns a classification exactly
  when every record whose destination is a regular file carries one.
\<close>

theorem check_files_missing_contentlength:
  assumes "\<forall>x\<in>set xs. dest x \<noteq> None"
  shows "((check_files f xs = Inl (KeyError ''contentlength''))
            = (\<exists>x\<in>set xs. isfile f (the (dest x)) \<and> contentlength x = None))
       \<and> ((\<exists>r. check_files f xs = Inr r)
            = (\<forall>x\<in>set xs. isfile f (the (dest x)) \<longrightarrow> contentlength x \<noteq> None))"
proof -
  from assms have d: "list_all (\<lambda>x. dest x \<noteq> None) xs"
    by (simp add: list_all_iff)
  have "checkable f x = (isfile f (the (dest x)) \<longrightarrow> contentlength x \<noteq> None)"
    if "x \<in> set xs" for x
  proof -
    from assms that obtain d where "dest x = Some d" by auto
    then show ?thesis by (simp add: checkable_iff)
  qed
  then have c: "list_all (checkable f) xs
      = (\<forall>x\<in>set xs. isfile f (the (dest x)) \<longrightarrow> contentlength x \<noteq> None)"
    by (simp add: list_all_iff)
  show ?thesis
    unfolding check_files_dest [OF d] c by auto
qed

theorem check_files_missing_contentlength_witness:
  "check_files fs_stray [local_item ''/a.txt'' 10 ''out/a.txt'' None, stray_dir]
     = Inl (KeyError ''contentlength'')
   \<and> isfile fs_stray (the (dest stray_dir)) \<and> contentlength stray_dir = None
   \<and> (\<exists>r. check_files fs_partial [local_item ''/a.txt'' 10 ''out/a.txt'' None] = Inr r)"
proof -
  have d1: "\<forall>x\<in>set [local_item ''/a.txt'' 10 ''out/a.txt'' None, stray_dir]. dest x \<noteq> None"
    by (simp add: local_item_def stray_dir_def)
  have d2: "\<forall>x\<in>set [local_item ''/a.txt'' 10 ''out/a.txt'' None]. dest x \<noteq> None"
    by (simp add: local_item_def)
  have s: "isfile fs_stray (the (dest stray_dir)) \<and> contentlength stray_dir = None"
    by (simp add: isfile_def fs_stray_def stray_dir_def dir_item_def)
  have a: "contentlength (local_item ''/a.txt'' 10 ''out/a.txt'' None) \<noteq> None"
    by (simp add: local_item_def file_item_def)
  from check_files_missing_contentlength [OF d1, of fs_stray]
    check_files_missing_contentlength [OF d2, of fs_partial] s a
  show ?thesis
    by auto
qed

subsection \<open>The transfer\<close>

lemma write_chunks_total:
  "d p = Some k \<Longrightarrow>
     write_chunks cs p (n, d)
       = (n + int (sum_list (map length cs)), d(p \<mapsto> k + sum_list (map length cs)))"
proof (induction cs arbitrary: n d k)
  case Nil
  then show ?case by (simp add: map_upd_triv)
next
  case (Cons c cs)
  have step: "write_chunks (c # cs) p (n, d)
      = write_chunks cs p (n + int (length c), d(p \<mapsto> k + length c))"
    using Cons.prems by simp
  have rest: "write_chunks cs p (n + int (length c), d(p \<mapsto> k + length c))
      = (n + int (length c) + int (sum_list (map length cs)),
         (d(p \<mapsto> k + length c))(p \<mapsto> k + length c + sum_list (map length cs)))"
    by (rule Cons.IH) simp
  show ?case
    unfolding step rest by (simp add: add.assoc fun_eq_iff)
qed

lemma download_file_result:
  "download_file os s host path_share path_out d =
     (case os_makedirs os (dirname path_out) of
        Some e \<Rightarrow> (Some e, d)
      | None \<Rightarrow>
          (case total_size_of (get s (webdav_url host path_share)) of
             Inl e \<Rightarrow> (Some e, d)
           | Inr t \<Rightarrow>
               (case open_wb os path_out of
                  Some e \<Rightarrow> (Some e, d)
                | None \<Rightarrow>
                    (if t \<noteq> 0 \<and> int (bytes_written (get s (webdav_url host path_share))) \<noteq> t
                     then Some (could_not_download host path_share) else None,
                     d(path_out \<mapsto> bytes_written (get s (webdav_url host path_share)))))))"
proof -
  have w: "write_chunks cs path_out (0, d(path_out \<mapsto> 0))
      = (int (sum_list (map length cs)), d(path_out \<mapsto> sum_list (map length cs)))" for cs
    using write_chunks_total [of "d(path_out \<mapsto> 0)" path_out 0 cs 0] by simp
  show ?thesis
    by (simp add: download_file_def Let_def w bytes_written_def could_not_download_def
          split: sum.splits option.splits)
qed

lemma total_size_error:
  "total_size_of r = Inl e \<Longrightarrow> \<exists>t. e = ValueError t"
  by (auto simp: total_size_of_def py_int_def Let_def split: option.splits)

text \<open>
  C3 (as amended). When the two calls into the operating system return, the directory
  of the destination made and the destination opened, \<^verbatim>\<open>download_file\<close> fails with the
  \<^verbatim>\<open>RuntimeError\<close> that names the URL exactly when the response advertised a content
  length other than zero and the number of bytes written differs from it; it raises no
  other \<^verbatim>\<open>RuntimeError\<close>. When the header is absent or zero it returns without error,
  whatever was written. The destination file holds the bytes the progress counter
  counted.
\<close>

theorem download_file_integrity:
  fixes os s host path_share path_out d
  defines "r \<equiv> get s (webdav_url host path_share)"
  defines "res \<equiv> download_file os s host path_share path_out d"
  assumes made: "os_makedirs os (dirname path_out) = None"
    and opened: "open_wb os path_out = None"
  shows "((fst res = Some (could_not_download host path_share))
            = (\<exists>t. total_size_of r = Inr t \<and> t \<noteq> 0 \<and> int (bytes_written r) \<noteq> t))
       \<and> ((\<exists>m. fst res = Some (RuntimeError m))
            = (fst res = Some (could_not_download host path_share)))
       \<and> (headers r ''content-length'' = None \<or> total_size_of r = Inr 0 \<longrightarrow> fst res = None)
       \<and> ((\<exists>t. total_size_of r = Inr t) \<longrightarrow> snd res path_out = Some (bytes_written r))"
proof -
  have absent: "total_size_of r = Inr 0" if "headers r ''content-length'' = None"
    using that by (simp add: total_size_of_def)
  show ?thesis
  proof (cases "total_size_of r")
    case (Inl e)
    then obtain t where "e = ValueError t"
      using total_size_error by blast
    with Inl absent made opened show ?thesis
      by (auto simp: res_def download_file_result r_def [symmetric] could_not_download_def)
  next
    case (Inr t)
    with absent made opened show ?thesis
      by (auto simp: res_def download_file_result r_def [symmetric] could_not_download_def)
  qed
qed

theorem download_file_integrity_witness:
  "fst (download_file os_posix session_short ''https://h'' ''/a.txt'' ''out/a.txt'' Map.empty)
     = Some (RuntimeError ''Could not download file: https://h/public.php/webdav//a.txt'')
   \<and> snd (download_file os_posix session_short ''https://h'' ''/a.txt'' ''out/a.txt'' Map.empty)
         ''out/a.txt''
     = Some 50
   \<and> fst (download_file os_posix session_unknown ''https://h'' ''/a.txt'' ''out/a.txt'' Map.empty)
     = None
   \<and> snd (download_file os_posix session_unknown ''https://h'' ''/a.txt'' ''out/a.txt'' Map.empty)
         ''out/a.txt''
     = Some 3"
proof -
  have made: "os_makedirs os_posix (dirname ''out/a.txt'') = None"
    by code_simp
  have opened: "open_wb os_posix ''out/a.txt'' = None"
    by code_simp
  have t: "total_size_of (get session_short (webdav_url ''https://h'' ''/a.txt'')) = Inr 100"
    by code_simp
  have b: "bytes_written (get session_short (webdav_url ''https://h'' ''/a.txt'')) = 50"
    by code_simp
  have m: "could_not_download ''https://h'' ''/a.txt''
      = RuntimeError ''Could not download file: https://h/public.php/webdav//a.txt''"
    by (simp add: could_not_download_def webdav_url_def)
  have u: "headers (get session_unknown (webdav_url ''https://h'' ''/a.txt'')) ''content-length'' = None"
    by (simp add: session_unknown_def)
  have tu: "total_size_of (get session_unknown (webdav_url ''https://h'' ''/a.txt'')) = Inr 0"
    by (simp add: total_size_of_def u)
  have bu: "bytes_written (get session_unknown (webdav_url ''https://h'' ''/a.txt'')) = 3"
    by code_simp
  from download_file_integrity [OF made opened, of session_short "''https://h''" "''/a.txt''" Map.empty]
    download_file_integrity [OF made opened, of session_unknown "''https://h''" "''/a.txt''" Map.empty]
  show ?thesis
    unfolding t b m u tu bu by simp
qed

text \<open>
  The claim as stated fails when a call into the operating system raises. For the
  destination \<^verbatim>\<open>a.txt\<close>, which has no directory part, \<^verbatim>\<open>os.makedirs('')\<close> raises
  \<^verbatim>\<open>FileNotFoundError\<close> before any request. For the destination \<^verbatim>\<open>out/a/\<close> the response
  advertises 100 bytes, \<^verbatim>\<open>open\<close> raises, and nothing is written: the bytes written differ
  from the advertised length and the failure is not the \<^verbatim>\<open>RuntimeError\<close>.
\<close>

theorem download_file_counterexample:
  "download_file os_posix session_short ''https://h'' ''/a.txt'' ''a.txt'' Map.empty
     = (Some FileNotFoundError, Map.empty)
   \<and> total_size_of (get session_short (webdav_url ''https://h'' ''/a%2F'')) = Inr 100
   \<and> download_file os_posix session_short ''https://h'' ''/a%2F'' ''out/a/'' Map.empty
     = (Some (OSError ''out/a/''), Map.empty)"
proof -
  have 1: "os_makedirs os_posix (dirname ''a.txt'') = Some FileNotFoundError"
    by code_simp
  have 2: "os_makedirs os_posix (dirname ''out/a/'') = None"
    by code_simp
  have 3: "open_wb os_posix ''out/a/'' = Some (OSError ''out/a/'')"
    by code_simp
  have 4: "total_size_of (get session_short (webdav_url ''https://h'' ''/a%2F'')) = Inr 100"
    by code_simp
  show ?thesis
    by (simp add: download_file_result 1 2 3 4)
qed

subsection \<open>A transfer, then the reconciler\<close>



lemma candidates_member:
  "x \<in> set walked \<Longrightarrow>
   (glob_given a \<longrightarrow> glob_filter fnmatch (destination a x) (the (glob a))) \<Longrightarrow>
     set_dest a x \<in> set (candidates fnmatch a walked)"
  by (auto simp: candidates_def Let_def dest_set_dest)




subsection \<open>The destination path\<close>

lemma unquote_no_percent: "CHR ''%'' \<notin> set s \<Longrightarrow> unquote (s @ t) = s @ unquote t"
proof (induction s rule: unquote.induct)
  case 1
  then show ?case by simp
next
  case (2 c)
  then show ?case by (cases t rule: unquote.cases) auto
next
  case (3 c h)
  then show ?case by (cases t rule: unquote.cases) auto
next
  case (4 c h1 h2 cs)
  then show ?case by auto
qed


lemma unquote_Cons: "c \<noteq> CHR ''%'' \<Longrightarrow> unquote (c # s) = c # unquote s"
  by (cases s rule: unquote.cases) auto

text \<open>
  The two computations agree when the output root has no percent sign and the remote
  path starts with one separator that no second one follows, before or after decoding.
\<close>

lemma destination_agrees:
  assumes root: "CHR ''%'' \<notin> set (output a)"
    and p: "path x = CHR ''/'' # rest"
    and rel: "\<not> startswith rest ''/''" "\<not> startswith (unquote rest) ''/''"
  shows "destination a x = claimed_destination (output a) (path x)"
proof -
  have left: "destination a x = join (output a) (unquote rest)"
  proof (cases "output a = [] \<or> endswith (output a) ''/''")
    case True
    then show ?thesis
      using root rel p by (simp add: destination_def join_def unquote_no_percent)
  next
    case False
    have "unquote (output a @ CHR ''/'' # rest) = output a @ unquote (CHR ''/'' # rest)"
      using root by (rule unquote_no_percent)
    with False show ?thesis
      using rel p by (simp add: destination_def join_def unquote_Cons)
  qed
  have "claimed_destination (output a) (path x) = join (output a) (unquote rest)"
    by (simp add: claimed_destination_def p unquote_Cons strip_leading_sep_def startswith_def)
  with left show ?thesis by simp
qed


text \<open>
  C5. Line 155 decodes the joined path, the output root included. With the output root
  \<^verbatim>\<open>a%41\<close> the file \<^verbatim>\<open>/f.txt\<close> goes to \<^verbatim>\<open>aA/f.txt\<close>, where the claim has
  \<^verbatim>\<open>a%41/f.txt\<close>. The emptiness check of line 161 reads the root as given, so a second
  run finds \<^verbatim>\<open>a%41\<close> missing and classifies the file it wrote as new.
\<close>

theorem destination_decodes_output_root:
  "destination args_percent (file_item ''/f.txt'' 3) = ''aA/f.txt''
   \<and> claimed_destination (output args_percent) (path (file_item ''/f.txt'' 3)) = ''a%41/f.txt''
   \<and> destination args_percent (file_item ''/f.txt'' 3)
       \<noteq> claimed_destination (output args_percent) (path (file_item ''/f.txt'' 3))
   \<and> file_lists fnmatch_simple args_percent fs_percent [file_item ''/f.txt'' 3]
       = Inr ([local_item ''/f.txt'' 3 ''aA/f.txt'' None], [], [])"
  by code_simp

end
